theory Spec2Isabelle
  imports Main "HOL-Library.Word" "HOL-Library.Sublist"
begin

unbundle bit_operations_syntax

section \<open>The change-detection pipeline of the activity monitor\<close>

text \<open>
  A shallow embedding of \<^verbatim>\<open>src/monitor.py\<close>: \<^verbatim>\<open>fetch_page_content\<close>,
  \<^verbatim>\<open>extract_content\<close>, \<^verbatim>\<open>compute_hash\<close>, \<^verbatim>\<open>load_previous_hash\<close>,
  \<^verbatim>\<open>save_hash\<close> and \<^verbatim>\<open>check_for_changes\<close>, together with the part of
  \<^verbatim>\<open>Config\<close> they read.

  The module calls four libraries: \<^verbatim>\<open>requests\<close>, \<^verbatim>\<open>bs4\<close>, \<^verbatim>\<open>hashlib\<close> and
  \<^verbatim>\<open>pathlib\<close>. Their calls are modelled by what they return or raise:
  \<^item> the network is a function from a URL to the outcome of \<^verbatim>\<open>requests.get\<close>;
  \<^item> a document is the tree that \<^verbatim>\<open>BeautifulSoup(html, "html.parser")\<close> builds from its
    text, and the CSS engine behind \<^verbatim>\<open>select_one\<close> is a parameter;
  \<^item> SHA-256 is written out on 32-bit words;
  \<^item> the file system is a state that is passed in and returned.

  A Python \<^verbatim>\<open>str\<close> is a \<open>string\<close>: each \<open>char\<close> stands for one code point
  below 256, so every string of the model can be encoded as UTF-8.
\<close>

subsection \<open>Strings and whitespace\<close>

text \<open>
  \<^verbatim>\<open>str.strip()\<close> and the regular expression \<^verbatim>\<open>\s\<close> agree on what whitespace is.
  Below code point 256 it is: tab, line feed, vertical tab, form feed, carriage return,
  the separators 28 to 31, space, NEL (133) and the no-break space (160).
\<close>

definition is_space :: "char \<Rightarrow> bool" where
  "is_space c = (of_char c \<in> {9, 10, 11, 12, 13, 28, 29, 30, 31, 32, 133, 160 :: nat})"

text \<open>\<^verbatim>\<open>s.strip()\<close>: leading and trailing whitespace removed.\<close>

definition strip :: "string \<Rightarrow> string" where
  "strip s = rev (dropWhile is_space (rev (dropWhile is_space s)))"

text \<open>A string is trimmed when it neither starts nor ends with whitespace.\<close>

definition trimmed :: "string \<Rightarrow> bool" where
  "trimmed t = (dropWhile is_space t = t \<and> dropWhile is_space (rev t) = rev t)"


text \<open>\<^verbatim>\<open>sep.join(parts)\<close>.\<close>

fun join :: "string \<Rightarrow> string list \<Rightarrow> string" where
  "join sep [] = []"
| "join sep [x] = x"
| "join sep (x # y # ys) = x @ sep @ join sep (y # ys)"

text \<open>
  \<^verbatim>\<open>re.sub(r"\s+", " ", s)\<close>: every maximal run of whitespace becomes one space.
\<close>

function re_sub_spaces :: "string \<Rightarrow> string" where
  "re_sub_spaces [] = []"
| "re_sub_spaces (c # cs) =
     (if is_space c then CHR '' '' # re_sub_spaces (dropWhile is_space cs)
      else c # re_sub_spaces cs)"
  by pat_completeness auto
termination
  by (relation "measure length") (auto simp: length_dropWhile_le less_Suc_eq_le)


subsection \<open>The fingerprint: \<^verbatim>\<open>compute_hash\<close>\<close>

text \<open>
  \<^verbatim>\<open>hashlib.sha256(content.encode("utf-8")).hexdigest()\<close>. SHA-256 follows FIPS 180-4:
  the message is padded to a multiple of 64 bytes, cut into blocks of sixteen big-endian
  32-bit words, and each block is mixed into eight chaining words by 64 rounds.
\<close>

type_synonym byte = "8 word"
type_synonym word32 = "32 word"

definition rotr :: "nat \<Rightarrow> word32 \<Rightarrow> word32" where
  "rotr n x = drop_bit n x OR push_bit (32 - n) x"

definition Ch :: "word32 \<Rightarrow> word32 \<Rightarrow> word32 \<Rightarrow> word32" where
  "Ch x y z = (x AND y) XOR (NOT x AND z)"

definition Maj :: "word32 \<Rightarrow> word32 \<Rightarrow> word32 \<Rightarrow> word32" where
  "Maj x y z = (x AND y) XOR (x AND z) XOR (y AND z)"

definition bsig0 :: "word32 \<Rightarrow> word32" where
  "bsig0 x = rotr 2 x XOR rotr 13 x XOR rotr 22 x"

definition bsig1 :: "word32 \<Rightarrow> word32" where
  "bsig1 x = rotr 6 x XOR rotr 11 x XOR rotr 25 x"

definition ssig0 :: "word32 \<Rightarrow> word32" where
  "ssig0 x = rotr 7 x XOR rotr 18 x XOR drop_bit 3 x"

definition ssig1 :: "word32 \<Rightarrow> word32" where
  "ssig1 x = rotr 17 x XOR rotr 19 x XOR drop_bit 10 x"

definition K :: "word32 list" where
  "K = [
   0x428A2F98, 0x71374491, 0xB5C0FBCF, 0xE9B5DBA5, 0x3956C25B, 0x59F111F1, 0x923F82A4, 0xAB1C5ED5,
   0xD807AA98, 0x12835B01, 0x243185BE, 0x550C7DC3, 0x72BE5D74, 0x80DEB1FE, 0x9BDC06A7, 0xC19BF174,
   0xE49B69C1, 0xEFBE4786, 0x0FC19DC6, 0x240CA1CC, 0x2DE92C6F, 0x4A7484AA, 0x5CB0A9DC, 0x76F988DA,
   0x983E5152, 0xA831C66D, 0xB00327C8, 0xBF597FC7, 0xC6E00BF3, 0xD5A79147, 0x06CA6351, 0x14292967,
   0x27B70A85, 0x2E1B2138, 0x4D2C6DFC, 0x53380D13, 0x650A7354, 0x766A0ABB, 0x81C2C92E, 0x92722C85,
   0xA2BFE8A1, 0xA81A664B, 0xC24B8B70, 0xC76C51A3, 0xD192E819, 0xD6990624, 0xF40E3585, 0x106AA070,
   0x19A4C116, 0x1E376C08, 0x2748774C, 0x34B0BCB5, 0x391C0CB3, 0x4ED8AA4A, 0x5B9CCA4F, 0x682E6FF3,
   0x748F82EE, 0x78A5636F, 0x84C87814, 0x8CC70208, 0x90BEFFFA, 0xA4506CEB, 0xBEF9A3F7, 0xC67178F2]"

type_synonym sha_state =
  "word32 \<times> word32 \<times> word32 \<times> word32 \<times> word32 \<times> word32 \<times> word32 \<times> word32"

definition H0 :: sha_state where
  "H0 = (0x6A09E667, 0xBB67AE85, 0x3C6EF372, 0xA54FF53A,
         0x510E527F, 0x9B05688C, 0x1F83D9AB, 0x5BE0CD19)"

text \<open>The length of the message in bits, as eight bytes, most significant first.\<close>

definition be64 :: "64 word \<Rightarrow> byte list" where
  "be64 n = map (\<lambda>i. ucast (drop_bit (8 * i) n)) [7, 6, 5, 4, 3, 2, 1, 0]"

definition pad :: "byte list \<Rightarrow> byte list" where
  "pad m =
     m @ [0x80] @ replicate ((119 - length m mod 64) mod 64) 0 @ be64 (of_nat (8 * length m))"

function blocks :: "byte list \<Rightarrow> byte list list" where
  "blocks bs = (if bs = [] then [] else take 64 bs # blocks (drop 64 bs))"
  by pat_completeness auto
termination
  by (relation "measure length") auto

definition be32 :: "byte list \<Rightarrow> word32" where
  "be32 bs = foldl (\<lambda>w b. push_bit 8 w OR ucast b) 0 bs"

definition block_words :: "byte list \<Rightarrow> word32 list" where
  "block_words b = map (\<lambda>i. be32 (take 4 (drop (4 * i) b))) [0..<16]"

text \<open>The message schedule: \<open>schedule 48\<close> extends the sixteen words of a block to 64.\<close>

fun schedule :: "nat \<Rightarrow> word32 list \<Rightarrow> word32 list" where
  "schedule 0 w = w"
| "schedule (Suc n) w =
     (let t = length w
      in schedule n
           (w @ [ssig1 (w ! (t - 2)) + w ! (t - 7) + ssig0 (w ! (t - 15)) + w ! (t - 16)]))"

fun sha_round :: "sha_state \<Rightarrow> word32 \<times> word32 \<Rightarrow> sha_state" where
  "sha_round (a, b, c, d, e, f, g, h) (k, w) =
     (let t1 = h + bsig1 e + Ch e f g + k + w;
          t2 = bsig0 a + Maj a b c
      in (t1 + t2, a, b, c, d + t1, e, f, g))"

fun add_state :: "sha_state \<Rightarrow> sha_state \<Rightarrow> sha_state" where
  "add_state (a, b, c, d, e, f, g, h) (a', b', c', d', e', f', g', h') =
     (a + a', b + b', c + c', d + d', e + e', f + f', g + g', h + h')"

definition process_block :: "sha_state \<Rightarrow> byte list \<Rightarrow> sha_state" where
  "process_block s b = add_state s (foldl sha_round s (zip K (schedule 48 (block_words b))))"

definition word_bytes :: "word32 \<Rightarrow> byte list" where
  "word_bytes w = [ucast (drop_bit 24 w), ucast (drop_bit 16 w), ucast (drop_bit 8 w), ucast w]"

fun digest_bytes :: "sha_state \<Rightarrow> byte list" where
  "digest_bytes (a, b, c, d, e, f, g, h) = concat (map word_bytes [a, b, c, d, e, f, g, h])"

definition sha256 :: "byte list \<Rightarrow> byte list" where
  "sha256 m = digest_bytes (foldl process_block H0 (blocks (pad m)))"

text \<open>\<^verbatim>\<open>hexdigest()\<close>: two lowercase hexadecimal digits for each byte.\<close>

definition hex_digit :: "nat \<Rightarrow> char" where
  "hex_digit n = ''0123456789abcdef'' ! n"

definition hexdigest :: "byte list \<Rightarrow> string" where
  "hexdigest bs = concat (map (\<lambda>b. [hex_digit (unat b div 16), hex_digit (unat b mod 16)]) bs)"

definition is_hex :: "char \<Rightarrow> bool" where
  "is_hex c = (c \<in> set ''0123456789abcdef'')"

text \<open>
  \<^verbatim>\<open>content.encode("utf-8")\<close>: a code point below 128 is one byte, a code point from 128
  to 255 is two.
\<close>

definition encode_utf8 :: "string \<Rightarrow> byte list" where
  "encode_utf8 s =
     concat (map (\<lambda>c. let n = of_char c :: nat
                      in if n < 128 then [of_nat n]
                         else [of_nat (192 + n div 64), of_nat (128 + n mod 64)]) s)"

definition compute_hash :: "string \<Rightarrow> string" where
  "compute_hash content = hexdigest (sha256 (encode_utf8 content))"

subsection \<open>Documents\<close>

text \<open>
  The tree of a parsed document. A tag has a name (the parser writes it in lower case),
  its attributes and its children. The value of an attribute is a string, or for
  \<^verbatim>\<open>class\<close> the list of the class names. \<open>NavigableString\<close> is a piece of text;
  \<open>Comment\<close> stands for a comment and for every other kind of string that
  \<^verbatim>\<open>get_text\<close> leaves out.
\<close>

datatype attr_value = Single string | Multi "string list"

datatype node =
    Tag string "(string \<times> attr_value) list" "node list"
  | NavigableString string
  | Comment string

text \<open>
  \<^verbatim>\<open>for tag in soup.find_all(...): tag.decompose()\<close>: every tag that the search finds,
  at any depth, is taken out of the tree with all that is inside it.
\<close>

fun prune :: "(node \<Rightarrow> bool) \<Rightarrow> node \<Rightarrow> node" where
  "prune P (Tag n a cs) = Tag n a (map (prune P) (filter (\<lambda>c. \<not> P c) cs))"
| "prune P (NavigableString s) = NavigableString s"
| "prune P (Comment s) = Comment s"

definition decompose_all :: "(node \<Rightarrow> bool) \<Rightarrow> node list \<Rightarrow> node list" where
  "decompose_all P soup = map (prune P) (filter (\<lambda>c. \<not> P c) soup)"

text \<open>\<^verbatim>\<open>find_all(["script", "style", "noscript", "iframe"])\<close>.\<close>

fun dynamic_tag :: "node \<Rightarrow> bool" where
  "dynamic_tag (Tag n a cs) = (n \<in> set [''script'', ''style'', ''noscript'', ''iframe''])"
| "dynamic_tag (NavigableString s) = False"
| "dynamic_tag (Comment s) = False"

text \<open>
  \<^verbatim>\<open>re.compile(r"ad|tracking|analytics", re.I).search(s)\<close>: one of the three words
  stands somewhere in \<open>s\<close>, in any mix of upper and lower case.
\<close>

definition ascii_lower :: "char \<Rightarrow> char" where
  "ascii_lower c =
     (case map_of (zip ''ABCDEFGHIJKLMNOPQRSTUVWXYZ'' ''abcdefghijklmnopqrstuvwxyz'') c of
        Some l \<Rightarrow> l
      | None \<Rightarrow> c)"

fun contains :: "string \<Rightarrow> string \<Rightarrow> bool" where
  "contains pat [] = (pat = [])"
| "contains pat (c # cs) = (prefix pat (c # cs) \<or> contains pat cs)"

definition re_search :: "string \<Rightarrow> bool" where
  "re_search s =
     (let l = map ascii_lower s
      in contains ''ad'' l \<or> contains ''tracking'' l \<or> contains ''analytics'' l)"

text \<open>
  \<^verbatim>\<open>find_all(attrs={"class": pattern})\<close>. The search tries the pattern on each class
  name, and then on the names joined by spaces.
\<close>

fun matches :: "attr_value \<Rightarrow> bool" where
  "matches (Single s) = re_search s"
| "matches (Multi ts) = (list_ex re_search ts \<or> re_search (join '' '' ts))"

fun tracking_tag :: "node \<Rightarrow> bool" where
  "tracking_tag (Tag n a cs) =
     (case map_of a ''class'' of Some v \<Rightarrow> matches v | None \<Rightarrow> False)"
| "tracking_tag (NavigableString s) = False"
| "tracking_tag (Comment s) = False"

text \<open>\<^verbatim>\<open>find_all(attrs={key: True})\<close>: the attribute is there, whatever its value.\<close>

fun has_attr :: "string \<Rightarrow> node \<Rightarrow> bool" where
  "has_attr key (Tag n a cs) = (map_of a key \<noteq> None)"
| "has_attr key (NavigableString s) = False"
| "has_attr key (Comment s) = False"

text \<open>
  \<^verbatim>\<open>get_text(separator=" ", strip=True)\<close>: the pieces of text in document order, each
  stripped, the empty ones dropped, joined by one space.
\<close>

fun all_strings :: "node \<Rightarrow> string list" where
  "all_strings (Tag n a cs) = concat (map all_strings cs)"
| "all_strings (NavigableString s) = [s]"
| "all_strings (Comment s) = []"

definition get_text :: "node list \<Rightarrow> string" where
  "get_text ns =
     join '' '' (filter (\<lambda>s. s \<noteq> []) (map strip (concat (map all_strings ns))))"

text \<open>
  The four searches of \<^verbatim>\<open>extract_content\<close> taken together: a noise element is a
  tag that one of them finds. \<open>without_noise\<close> takes all of them out in one pass.
\<close>

definition is_noise :: "node \<Rightarrow> bool" where
  "is_noise x =
     (dynamic_tag x \<or> tracking_tag x
      \<or> has_attr ''data-timestamp'' x \<or> has_attr ''data-nonce'' x)"

definition without_noise :: "node list \<Rightarrow> node list" where
  "without_noise html = decompose_all is_noise html"


text \<open>
  \<open>delete_node x d d'\<close>: the tree \<open>d'\<close> is \<open>d\<close> with one occurrence of the node
  \<open>x\<close>, at any depth, taken out.
\<close>

inductive delete_node :: "node \<Rightarrow> node list \<Rightarrow> node list \<Rightarrow> bool" where
  here: "delete_node x (before @ x # after) (before @ after)"
| inside: "delete_node x cs cs' \<Longrightarrow>
           delete_node x (before @ Tag n a cs # after) (before @ Tag n a cs' # after)"




subsection \<open>Errors\<close>

text \<open>
  The module raises one exception class, \<^verbatim>\<open>MonitorError\<close>, with five messages:
  \<^item> \<open>RequestTimedOut t\<close>: "Request timed out after t seconds";
  \<^item> \<open>HTTPErrorStatus code reason\<close>: "HTTP error code: reason";
  \<^item> \<open>FailedToConnect url\<close>: "Failed to connect to url";
  \<^item> \<open>RequestFailed detail\<close>: "Request failed: detail";
  \<^item> \<open>SelectorNoMatch selector\<close>: "Selector 'selector' did not match any element".

  Three exceptions of the libraries pass through the module uncaught: the CSS engine
  rejects a selector it cannot parse, \<^verbatim>\<open>read_text\<close> cannot decode a file, and a write
  fails with an \<^verbatim>\<open>OSError\<close>.
\<close>

datatype monitor_error =
    RequestTimedOut int
  | HTTPErrorStatus int string
  | FailedToConnect string
  | RequestFailed string
  | SelectorNoMatch string

datatype error =
    MonitorError monitor_error
  | SelectorSyntaxError
  | UnicodeDecodeError
  | OSError

subsection \<open>The normalizer: \<^verbatim>\<open>extract_content\<close>\<close>

text \<open>
  \<^verbatim>\<open>soup.select_one(selector)\<close> returns the first tag, in document order, that the
  selector matches, or \<^verbatim>\<open>None\<close>. What a selector matches is the library's business:
  the engine is a parameter that either rejects the selector or tells, for a tree and a
  tag of it, whether the selector matches the tag.
\<close>

type_synonym css = "string \<Rightarrow> (node list \<Rightarrow> node \<Rightarrow> bool) option"

fun tags_of :: "node \<Rightarrow> node list" where
  "tags_of (Tag n a cs) = Tag n a cs # concat (map tags_of cs)"
| "tags_of (NavigableString s) = []"
| "tags_of (Comment s) = []"

definition select_one :: "css \<Rightarrow> node list \<Rightarrow> string \<Rightarrow> error + node option" where
  "select_one engine soup selector =
     (case engine selector of
        None \<Rightarrow> Inl SelectorSyntaxError
      | Some m \<Rightarrow> Inr (find (m soup) (concat (map tags_of soup))))"

text \<open>
  The four removal passes, then the selection (\<^verbatim>\<open>if selector:\<close> is false for
  \<^verbatim>\<open>None\<close> and for the empty string), then the whitespace.
\<close>

definition extract_content :: "css \<Rightarrow> node list \<Rightarrow> string option \<Rightarrow> error + string" where
  "extract_content engine html selector =
     (let soup = decompose_all dynamic_tag html;
          soup = decompose_all tracking_tag soup;
          soup = decompose_all (has_attr ''data-timestamp'') soup;
          soup = decompose_all (has_attr ''data-nonce'') soup;
          content =
            (case selector of
               None \<Rightarrow> Inr (get_text soup)
             | Some sel \<Rightarrow>
                 if sel = [] then Inr (get_text soup)
                 else (case select_one engine soup sel of
                         Inl e \<Rightarrow> Inl e
                       | Inr None \<Rightarrow> Inl (MonitorError (SelectorNoMatch sel))
                       | Inr (Some element) \<Rightarrow> Inr (get_text [element])))
      in case content of
           Inl e \<Rightarrow> Inl e
         | Inr c \<Rightarrow> Inr (strip (re_sub_spaces c)))"

text \<open>
  An engine for the examples. It agrees with the library's engine on the selectors the
  examples use: \<^verbatim>\<open>#name\<close> matches the tags whose \<^verbatim>\<open>id\<close> is \<open>name\<close>, and the
  malformed selector \<^verbatim>\<open>[\<close> is rejected. It knows no other selector and rejects the
  rest as well.
\<close>

definition id_matcher :: "string \<Rightarrow> node list \<Rightarrow> node \<Rightarrow> bool" where
  "id_matcher ident soup element =
     (case element of
        Tag n a cs \<Rightarrow> map_of a ''id'' = Some (Single ident)
      | NavigableString s \<Rightarrow> False
      | Comment s \<Rightarrow> False)"

definition id_engine :: css where
  "id_engine selector =
     (case selector of
        [] \<Rightarrow> None
      | c # ident \<Rightarrow>
          if c = CHR ''#'' \<and> ident \<noteq> []
             \<and> list_all (\<lambda>x. x \<in> set ''abcdefghijklmnopqrstuvwxyz0123456789-_'') ident
          then Some (id_matcher ident)
          else None)"

subsection \<open>The fetcher: \<^verbatim>\<open>fetch_page_content\<close>\<close>

text \<open>
  \<^verbatim>\<open>requests.get\<close> follows redirects and returns the last response, or raises. The
  exceptions are the classes the handlers tell apart: \<open>ConnectTimeout\<close> is both a
  \<^verbatim>\<open>Timeout\<close> and a \<^verbatim>\<open>ConnectionError\<close>; \<open>OtherRequestException\<close> is any other
  \<^verbatim>\<open>RequestException\<close>, with its message. The body of a response is kept as the
  tree the parser makes of it.
\<close>

record response =
  status_code :: int
  reason :: string
  response_text :: "node list"

datatype request_exception =
    Timeout
  | ConnectTimeout
  | ReadTimeout
  | HTTPError int string
  | ConnectionError
  | OtherRequestException string

type_synonym network = "string \<Rightarrow> request_exception + response"

text \<open>\<^verbatim>\<open>response.raise_for_status()\<close> raises for the codes 400 to 599 and for no other.\<close>

definition raise_for_status :: "response \<Rightarrow> request_exception + unit" where
  "raise_for_status r =
     (if 400 \<le> status_code r \<and> status_code r < 600
      then Inl (HTTPError (status_code r) (reason r))
      else Inr ())"

text \<open>The \<^verbatim>\<open>except\<close> clauses, in the order of the source.\<close>

fun handle_exception :: "string \<Rightarrow> int \<Rightarrow> request_exception \<Rightarrow> monitor_error" where
  "handle_exception url timeout Timeout = RequestTimedOut timeout"
| "handle_exception url timeout ConnectTimeout = RequestTimedOut timeout"
| "handle_exception url timeout ReadTimeout = RequestTimedOut timeout"
| "handle_exception url timeout (HTTPError code why) = HTTPErrorStatus code why"
| "handle_exception url timeout ConnectionError = FailedToConnect url"
| "handle_exception url timeout (OtherRequestException detail) = RequestFailed detail"

definition fetch_page_content :: "network \<Rightarrow> string \<Rightarrow> int \<Rightarrow> error + node list" where
  "fetch_page_content net url timeout =
     (case net url of
        Inl e \<Rightarrow> Inl (MonitorError (handle_exception url timeout e))
      | Inr r \<Rightarrow>
          (case raise_for_status r of
             Inl e \<Rightarrow> Inl (MonitorError (handle_exception url timeout e))
           | Inr u \<Rightarrow> Inr (response_text r)))"

subsection \<open>The baseline store: \<^verbatim>\<open>load_previous_hash\<close> and \<^verbatim>\<open>save_hash\<close>\<close>

text \<open>
  What stands at a path: a file that reads as text, a file whose bytes the text decoder
  rejects, or something that cannot be read at all (a directory, a file without read
  permission, a failing device). Creating the parent directories and writing can each
  fail with an \<^verbatim>\<open>OSError\<close>; where they succeed, the path holds the text written.
\<close>

datatype entry = Readable string | Undecodable | Unreadable

record filesystem =
  entry_at :: "string \<Rightarrow> entry option"
  mkdir_fails :: "string \<Rightarrow> bool"
  write_fails :: "string \<Rightarrow> bool"

text \<open>
  A file opened in text mode is read with universal newlines: \<^verbatim>\<open>\r\n\<close> and \<^verbatim>\<open>\r\<close>
  arrive as \<^verbatim>\<open>\n\<close>.
\<close>

fun universal_newlines :: "string \<Rightarrow> string" where
  "universal_newlines [] = []"
| "universal_newlines [c] = (if c = CHR 0x0D then [CHR 0x0A] else [c])"
| "universal_newlines (c # d # cs) =
     (if c = CHR 0x0D
      then (if d = CHR 0x0A then CHR 0x0A # universal_newlines cs
            else CHR 0x0A # universal_newlines (d # cs))
      else c # universal_newlines (d # cs))"

definition path_exists :: "filesystem \<Rightarrow> string \<Rightarrow> bool" where
  "path_exists fs path = (entry_at fs path \<noteq> None)"

definition read_text :: "filesystem \<Rightarrow> string \<Rightarrow> error + string" where
  "read_text fs path =
     (case entry_at fs path of
        Some (Readable s) \<Rightarrow> Inr (universal_newlines s)
      | Some Undecodable \<Rightarrow> Inl UnicodeDecodeError
      | Some Unreadable \<Rightarrow> Inl OSError
      | None \<Rightarrow> Inl OSError)"

text \<open>
  The \<^verbatim>\<open>try\<close> block with its handler \<^verbatim>\<open>except (IOError, OSError): return None\<close>:
  an \<^verbatim>\<open>OSError\<close> becomes \<^verbatim>\<open>None\<close>, any other exception passes.
\<close>

definition load_previous_hash :: "filesystem \<Rightarrow> string \<Rightarrow> error + string option" where
  "load_previous_hash fs path =
     (let attempt =
            (if path_exists fs path
             then (case read_text fs path of
                     Inl e \<Rightarrow> Inl e
                   | Inr s \<Rightarrow> Inr (Some (strip s)))
             else Inr None)
      in case attempt of
           Inl OSError \<Rightarrow> Inr None
         | Inl e \<Rightarrow> Inl e
         | Inr r \<Rightarrow> Inr r)"

definition mkdir_parents :: "filesystem \<Rightarrow> string \<Rightarrow> error + filesystem" where
  "mkdir_parents fs path = (if mkdir_fails fs path then Inl OSError else Inr fs)"

definition write_text :: "filesystem \<Rightarrow> string \<Rightarrow> string \<Rightarrow> error + filesystem" where
  "write_text fs path data =
     (if write_fails fs path then Inl OSError
      else Inr (fs\<lparr>entry_at := (entry_at fs)(path \<mapsto> Readable data)\<rparr>))"

definition save_hash :: "filesystem \<Rightarrow> string \<Rightarrow> string \<Rightarrow> error + filesystem" where
  "save_hash fs path hash_value =
     (case mkdir_parents fs path of
        Inl e \<Rightarrow> Inl e
      | Inr fs1 \<Rightarrow> write_text fs1 path hash_value)"

subsection \<open>The change evaluator: \<^verbatim>\<open>check_for_changes\<close>\<close>

record config =
  monitor_url :: string
  email_from :: string
  email_to :: string
  email_password :: string
  check_selector :: "string option"
  email_smtp_host :: string
  email_smtp_port :: int
  hash_storage_path :: string

text \<open>
  The result is the pair the source returns, \<^verbatim>\<open>(has_changed, message)\<close>, and the file
  system after the call. The three messages are the three reasons: first run, unchanged,
  changed.
\<close>

definition check_for_changes ::
  "network \<Rightarrow> css \<Rightarrow> filesystem \<Rightarrow> config \<Rightarrow> error + ((bool \<times> string) \<times> filesystem)" where
  "check_for_changes net engine fs cfg =
     (case fetch_page_content net (monitor_url cfg) 30 of
        Inl e \<Rightarrow> Inl e
      | Inr html \<Rightarrow>
     (case extract_content engine html (check_selector cfg) of
        Inl e \<Rightarrow> Inl e
      | Inr content \<Rightarrow>
     (let current_hash = compute_hash content
      in case load_previous_hash fs (hash_storage_path cfg) of
           Inl e \<Rightarrow> Inl e
         | Inr None \<Rightarrow>
             (case save_hash fs (hash_storage_path cfg) current_hash of
                Inl e \<Rightarrow> Inl e
              | Inr fs' \<Rightarrow> Inr ((False, ''First run - baseline hash saved''), fs'))
         | Inr (Some previous_hash) \<Rightarrow>
             if current_hash = previous_hash
             then Inr ((False, ''No changes detected''), fs)
             else (case save_hash fs (hash_storage_path cfg) current_hash of
                     Inl e \<Rightarrow> Inl e
                   | Inr fs' \<Rightarrow> Inr ((True, ''Change detected on monitored page''), fs')))))"

subsection \<open>Example inputs\<close>



definition page_plain :: "node list" where
  "page_plain = [Tag ''html'' [] [Tag ''body'' [] [Tag ''p'' [] [NavigableString ''Content'']]]]"






text \<open>A page whose menu has the class \<^verbatim>\<open>header\<close>.\<close>

definition header_menu :: node where
  "header_menu = Tag ''div'' [(''class'', Multi [''header''])] [NavigableString ''Menu'']"

definition header_page :: "node list" where
  "header_page = [header_menu, Tag ''p'' [] [NavigableString ''Body'']]"

text \<open>A network that answers every request with one response.\<close>

definition answering :: "int \<Rightarrow> string \<Rightarrow> node list \<Rightarrow> network" where
  "answering code why html =
     (\<lambda>url. Inr \<lparr>status_code = code, reason = why, response_text = html\<rparr>)"

text \<open>A file system with no files where every write succeeds, and one with a single path.\<close>

definition empty_fs :: filesystem where
  "empty_fs =
     \<lparr>entry_at = (\<lambda>p. None), mkdir_fails = (\<lambda>p. False), write_fails = (\<lambda>p. False)\<rparr>"

definition fs_with :: "string \<Rightarrow> entry \<Rightarrow> filesystem" where
  "fs_with path e = empty_fs\<lparr>entry_at := (\<lambda>p. if p = path then Some e else None)\<rparr>"

definition example_config :: config where
  "example_config =
     \<lparr>monitor_url = ''https://example.com/activity'',
      email_from = ''monitor@example.com'',
      email_to = ''owner@example.com'',
      email_password = ''secret'',
      check_selector = None,
      email_smtp_host = ''smtp.gmail.com'',
      email_smtp_port = 465,
      hash_storage_path = ''last_hash.txt''\<rparr>"

section \<open>Properties\<close>

subsection \<open>The fingerprint\<close>

lemma length_digest_bytes: "length (digest_bytes s) = 32"
  by (induction s rule: digest_bytes.induct) (simp add: word_bytes_def)

lemma length_sha256: "length (sha256 m) = 32"
  by (simp add: sha256_def length_digest_bytes)

lemma length_hexdigest: "length (hexdigest bs) = 2 * length bs"
  by (induction bs) (simp_all add: hexdigest_def)

lemma is_hex_hex_digit: "n < 16 \<Longrightarrow> is_hex (hex_digit n)"
  unfolding is_hex_def hex_digit_def by (rule nth_mem) simp

lemma is_hex_hexdigest: "list_all is_hex (hexdigest bs)"
proof (induction bs)
  case Nil
  show ?case by (simp add: hexdigest_def)
next
  case (Cons b bs)
  have "unat b < 256"
    using unsigned_less [of b] by simp
  then have "unat b div 16 < 16"
    by simp
  then have "is_hex (hex_digit (unat b div 16))" and "is_hex (hex_digit (unat b mod 16))"
    by (simp_all add: is_hex_hex_digit)
  with Cons show ?case
    by (simp add: hexdigest_def)
qed

text \<open>The digest of the empty string, as every SHA-256 implementation gives it.\<close>

lemma compute_hash_empty:
  "compute_hash '''' = ''e3b0c44298fc1c149afbf4c8996fb92427ae41e4649b934ca495991b7852b855''"
  by code_simp


subsection \<open>The fetcher\<close>

text \<open>
  Claim C9 says that every final response with a status outside 200 to 299 makes
  \<open>fetch_page_content\<close> fail, the 3xx statuses included. The code leaves the decision
  to \<^verbatim>\<open>raise_for_status\<close>, which raises for 400 to 599 only: a final response with
  status 304 is returned as the document.
\<close>

theorem fetch_304_returns_body:
  "fetch_page_content (answering 304 ''Not Modified'' [NavigableString ''stale''])
     ''https://example.com/activity'' 30 = Inr [NavigableString ''stale'']"
  by (simp add: fetch_page_content_def raise_for_status_def answering_def)

text \<open>
  Claim C9, amended. For every final response whose status is from 400 to 599,
  \<open>fetch_page_content\<close> fails with the \<^verbatim>\<open>MonitorError\<close> "HTTP error code: reason";
  for every other status it returns the body of the response.
\<close>

theorem fetch_fails_on_4xx_5xx:
  assumes "net url = Inr r"
  shows "fetch_page_content net url timeout =
           (if 400 \<le> status_code r \<and> status_code r < 600
            then Inl (MonitorError (HTTPErrorStatus (status_code r) (reason r)))
            else Inr (response_text r))"
  using assms by (simp add: fetch_page_content_def raise_for_status_def)

theorem fetch_fails_on_4xx_5xx_witness:
  "fetch_page_content (answering 404 ''Not Found'' []) ''https://example.com/activity'' 30
     = Inl (MonitorError (HTTPErrorStatus 404 ''Not Found''))
   \<and> fetch_page_content (answering 200 ''OK'' page_plain) ''https://example.com/activity'' 30
     = Inr page_plain"
proof -
  have a: "answering 404 ''Not Found'' [] ''https://example.com/activity''
             = Inr \<lparr>status_code = 404, reason = ''Not Found'', response_text = []\<rparr>"
    by (simp add: answering_def)
  have b: "answering 200 ''OK'' page_plain ''https://example.com/activity''
             = Inr \<lparr>status_code = 200, reason = ''OK'', response_text = page_plain\<rparr>"
    by (simp add: answering_def)
  show ?thesis
    using a b
      fetch_fails_on_4xx_5xx [of "answering 404 ''Not Found'' []" "''https://example.com/activity''"
        "\<lparr>status_code = 404, reason = ''Not Found'', response_text = []\<rparr>" 30]
      fetch_fails_on_4xx_5xx [of "answering 200 ''OK'' page_plain" "''https://example.com/activity''"
        "\<lparr>status_code = 200, reason = ''OK'', response_text = page_plain\<rparr>" 30]
    by simp
qed

subsection \<open>The baseline store\<close>

lemma universal_newlines_no_space:
  "\<not> list_ex is_space v \<Longrightarrow> universal_newlines v = v"
  by (induction v rule: universal_newlines.induct) (auto simp: is_space_def)

lemma dropWhile_no_space: "\<not> list_ex is_space v \<Longrightarrow> dropWhile is_space v = v"
  by (cases v) auto

lemma strip_no_space: "\<not> list_ex is_space v \<Longrightarrow> strip v = v"
  by (simp add: strip_def dropWhile_no_space list_ex_iff)

lemma is_hex_not_space: "is_hex c \<Longrightarrow> \<not> is_space c"
  by (auto simp: is_hex_def is_space_def)

lemma compute_hash_no_space: "\<not> list_ex is_space (compute_hash content)"
  using is_hex_hexdigest [of "sha256 (encode_utf8 content)"]
  by (auto simp: compute_hash_def list_ex_iff list_all_iff is_hex_not_space)

lemma length_compute_hash: "length (compute_hash content) = 64"
  by (simp add: compute_hash_def length_hexdigest length_sha256)

lemma save_hash_entry:
  "save_hash fs path v = Inr fs' \<Longrightarrow> entry_at fs' path = Some (Readable v)"
  by (auto simp: save_hash_def mkdir_parents_def write_text_def split: if_splits)

lemma save_hash_frame:
  "save_hash fs path v = Inr fs' \<Longrightarrow> other \<noteq> path \<Longrightarrow> entry_at fs' other = entry_at fs other"
  by (auto simp: save_hash_def mkdir_parents_def write_text_def split: if_splits)

lemma load_previous_hash_cases:
  "load_previous_hash fs path =
     (case entry_at fs path of
        None \<Rightarrow> Inr None
      | Some (Readable s) \<Rightarrow> Inr (Some (strip (universal_newlines s)))
      | Some Undecodable \<Rightarrow> Inl UnicodeDecodeError
      | Some Unreadable \<Rightarrow> Inr None)"
  by (simp add: load_previous_hash_def path_exists_def read_text_def
      split: option.splits entry.splits)

lemma load_after_save:
  assumes "save_hash fs path v = Inr fs'" and "\<not> list_ex is_space v"
  shows "load_previous_hash fs' path = Inr (Some v)"
  using save_hash_entry [OF assms(1)] assms(2)
  by (simp add: load_previous_hash_cases universal_newlines_no_space strip_no_space)

text \<open>
  Claim C6. A save that returns, followed by a load at the same key, gives back the
  value saved when the value has no whitespace in it; a load at a key where nothing
  stands gives \<^verbatim>\<open>None\<close>; and the payload "  abc123  " followed by a line feed loads
  as "abc123".
\<close>

theorem store_round_trip:
  "(save_hash fs key v = Inr fs' \<and> \<not> list_ex is_space v
      \<longrightarrow> load_previous_hash fs' key = Inr (Some v))
   \<and> (entry_at fs key = None \<longrightarrow> load_previous_hash fs key = Inr None)
   \<and> (entry_at fs key = Some (Readable (''  abc123  '' @ [CHR 0x0A]))
      \<longrightarrow> load_previous_hash fs key = Inr (Some ''abc123''))"
proof (intro conjI impI)
  assume "save_hash fs key v = Inr fs' \<and> \<not> list_ex is_space v"
  then show "load_previous_hash fs' key = Inr (Some v)"
    using load_after_save [of fs key v fs'] by simp
next
  assume "entry_at fs key = None"
  then show "load_previous_hash fs key = Inr None"
    by (simp add: load_previous_hash_cases)
next
  assume "entry_at fs key = Some (Readable (''  abc123  '' @ [CHR 0x0A]))"
  then show "load_previous_hash fs key = Inr (Some ''abc123'')"
    by (simp add: load_previous_hash_cases strip_def is_space_def)
qed

theorem store_round_trip_witness:
  "save_hash empty_fs ''last_hash.txt'' ''abc123'' = Inr (fs_with ''last_hash.txt'' (Readable ''abc123''))
   \<and> load_previous_hash (fs_with ''last_hash.txt'' (Readable ''abc123'')) ''last_hash.txt''
       = Inr (Some ''abc123'')
   \<and> load_previous_hash empty_fs ''last_hash.txt'' = Inr None
   \<and> load_previous_hash (fs_with ''last_hash.txt'' (Readable (''  abc123  '' @ [CHR 0x0A])))
        ''last_hash.txt'' = Inr (Some ''abc123'')"
proof -
  have saved: "save_hash empty_fs ''last_hash.txt'' ''abc123''
                 = Inr (fs_with ''last_hash.txt'' (Readable ''abc123''))"
    by (simp add: save_hash_def mkdir_parents_def write_text_def empty_fs_def fs_with_def
        fun_eq_iff)
  have clean: "\<not> list_ex is_space ''abc123''"
    by (simp add: is_space_def)
  have absent: "entry_at empty_fs ''last_hash.txt'' = None"
    by (simp add: empty_fs_def)
  have padded: "entry_at (fs_with ''last_hash.txt'' (Readable (''  abc123  '' @ [CHR 0x0A])))
                  ''last_hash.txt'' = Some (Readable (''  abc123  '' @ [CHR 0x0A]))"
    by (simp add: fs_with_def)
  show ?thesis
    using saved clean absent padded
      store_round_trip [of empty_fs "''last_hash.txt''" "''abc123''"
        "fs_with ''last_hash.txt'' (Readable ''abc123'')"]
      store_round_trip [of "fs_with ''last_hash.txt'' (Readable (''  abc123  '' @ [CHR 0x0A]))"
        "''last_hash.txt''" "''abc123''" empty_fs]
    by simp
qed

lemma last_dropWhile: "dropWhile P xs \<noteq> [] \<Longrightarrow> last (dropWhile P xs) = last xs"
  by (induction xs) (auto split: if_splits)

lemma dropWhile_id_iff: "dropWhile P xs = xs \<longleftrightarrow> (xs = [] \<or> \<not> P (hd xs))"
  by (cases xs) (auto simp: dropWhile_eq_Cons_conv)

lemma trimmed_strip: "trimmed (strip s)"
proof -
  define u where "u = dropWhile is_space s"
  define v where "v = dropWhile is_space (rev u)"
  have s: "strip s = rev v"
    by (simp add: strip_def u_def v_def)
  have u: "u = [] \<or> \<not> is_space (hd u)"
    unfolding u_def using hd_dropWhile [of is_space s] by blast
  have "dropWhile is_space (rev v) = rev v"
  proof (cases "v = []")
    case True
    then show ?thesis by simp
  next
    case False
    then have "last v = last (rev u)"
      unfolding v_def by (rule last_dropWhile)
    moreover from False have "u \<noteq> []"
      by (auto simp: v_def)
    ultimately have "\<not> is_space (last v)"
      using u by (simp add: last_rev)
    with False show ?thesis
      by (simp add: dropWhile_id_iff hd_rev)
  qed
  moreover have "dropWhile is_space v = v"
    by (simp add: v_def)
  ultimately show ?thesis
    by (simp add: trimmed_def s)
qed

lemma strip_between:
  "t = takeWhile is_space t @ strip t @ rev (takeWhile is_space (rev (dropWhile is_space t)))"
proof -
  define u where "u = dropWhile is_space t"
  have "u = rev (dropWhile is_space (rev u)) @ rev (takeWhile is_space (rev u))"
    by (metis rev_append rev_rev_ident takeWhile_dropWhile_id)
  then have "u = strip t @ rev (takeWhile is_space (rev u))"
    by (simp add: strip_def u_def)
  moreover have "t = takeWhile is_space t @ u"
    by (simp add: u_def)
  ultimately show ?thesis
    unfolding u_def by simp
qed

text \<open>
  Claim C7 says that \<open>load_previous_hash\<close> never raises. The handler catches
  \<^verbatim>\<open>OSError\<close> only, and \<^verbatim>\<open>read_text\<close> raises \<^verbatim>\<open>UnicodeDecodeError\<close>, which is
  not an \<^verbatim>\<open>OSError\<close>, on a file whose bytes are not text: the load of such a
  baseline raises.
\<close>

theorem load_undecodable_raises:
  "load_previous_hash (fs_with ''last_hash.txt'' Undecodable) ''last_hash.txt''
     = Inl UnicodeDecodeError"
  by (simp add: load_previous_hash_def path_exists_def read_text_def fs_with_def)

text \<open>
  Claim C7, amended. \<open>load_previous_hash\<close> never raises an \<^verbatim>\<open>OSError\<close>: it returns
  \<^verbatim>\<open>None\<close> when nothing stands at the key and when the read fails with an
  \<^verbatim>\<open>OSError\<close>. When the file holds text, it returns the text as read, without its
  leading and trailing whitespace: the value returned is trimmed, and the text read is
  that value between two runs of whitespace. The one exception it lets through is the
  \<^verbatim>\<open>UnicodeDecodeError\<close> of a file that does not decode.
\<close>

theorem load_previous_hash_outcomes:
  "load_previous_hash fs path =
     (case entry_at fs path of
        None \<Rightarrow> Inr None
      | Some (Readable s) \<Rightarrow> Inr (Some (strip (universal_newlines s)))
      | Some Undecodable \<Rightarrow> Inl UnicodeDecodeError
      | Some Unreadable \<Rightarrow> Inr None)
   \<and> load_previous_hash fs path \<noteq> Inl OSError
   \<and> trimmed (strip t)
   \<and> t = takeWhile is_space t @ strip t @ rev (takeWhile is_space (rev (dropWhile is_space t)))"
proof -
  have "load_previous_hash fs path \<noteq> Inl OSError"
    by (simp add: load_previous_hash_cases split: option.splits entry.splits)
  then show ?thesis
    using load_previous_hash_cases [of fs path] trimmed_strip [of t] strip_between [of t]
    by blast
qed

subsection \<open>The change evaluator\<close>

lemma check_for_changes_save_fails:
  assumes "fetch_page_content net (monitor_url cfg) 30 = Inr html"
    and "extract_content engine html (check_selector cfg) = Inr content"
    and "load_previous_hash fs (hash_storage_path cfg) = Inr previous"
    and "previous \<noteq> Some (compute_hash content)"
    and "save_hash fs (hash_storage_path cfg) (compute_hash content) = Inl e"
  shows "check_for_changes net engine fs cfg = Inl e"
  using assms by (cases previous) (auto simp: check_for_changes_def)

text \<open>The example run: the plain page is served, and the baseline is kept in \<^verbatim>\<open>last_hash.txt\<close>.\<close>

lemma example_fetch:
  "fetch_page_content (answering 200 ''OK'' page_plain) (monitor_url example_config) 30
     = Inr page_plain"
  by (simp add: fetch_page_content_def raise_for_status_def answering_def)

lemma example_extract:
  "extract_content id_engine page_plain (check_selector example_config) = Inr ''Content''"
  by (simp add: example_config_def page_plain_def extract_content_def decompose_all_def
      get_text_def strip_def is_space_def)

lemma example_load_empty: "load_previous_hash empty_fs path = Inr None"
  by (simp add: load_previous_hash_cases empty_fs_def)

lemma example_load:
  "\<not> list_ex is_space v \<Longrightarrow> load_previous_hash (fs_with path (Readable v)) path = Inr (Some v)"
  by (simp add: load_previous_hash_cases fs_with_def universal_newlines_no_space strip_no_space)

lemma example_save_empty: "save_hash empty_fs path v = Inr (fs_with path (Readable v))"
  by (simp add: save_hash_def mkdir_parents_def write_text_def empty_fs_def fs_with_def
      fun_eq_iff)

lemma example_save: "save_hash (fs_with path e) path v = Inr (fs_with path (Readable v))"
  by (simp add: save_hash_def mkdir_parents_def write_text_def empty_fs_def fs_with_def
      fun_eq_iff)

lemma compute_hash_not_short: "length v \<noteq> 64 \<Longrightarrow> compute_hash content \<noteq> v"
  using length_compute_hash [of content] by auto

text \<open>
  Claim C2. When the store holds a fingerprint and the new fingerprint differs from it,
  \<open>check_for_changes\<close> saves the new fingerprint at the configured key and returns
  \<open>True\<close> with the message of a change; a load at that key then returns the new
  fingerprint. (The save is the step that can still fail: a save that raises ends the
  call with its error, see \<open>check_for_changes_save_fails\<close>.)
\<close>

theorem changed_saves_new_fingerprint:
  assumes "fetch_page_content net (monitor_url cfg) 30 = Inr html"
    and "extract_content engine html (check_selector cfg) = Inr content"
    and "load_previous_hash fs (hash_storage_path cfg) = Inr (Some previous)"
    and "compute_hash content \<noteq> previous"
    and "save_hash fs (hash_storage_path cfg) (compute_hash content) = Inr fs'"
  shows "check_for_changes net engine fs cfg
           = Inr ((True, ''Change detected on monitored page''), fs')
         \<and> entry_at fs' (hash_storage_path cfg) = Some (Readable (compute_hash content))
         \<and> load_previous_hash fs' (hash_storage_path cfg) = Inr (Some (compute_hash content))"
proof -
  have "check_for_changes net engine fs cfg
          = Inr ((True, ''Change detected on monitored page''), fs')"
    using assms by (simp add: check_for_changes_def)
  moreover have "entry_at fs' (hash_storage_path cfg) = Some (Readable (compute_hash content))"
    using assms(5) by (rule save_hash_entry)
  moreover have "load_previous_hash fs' (hash_storage_path cfg)
                   = Inr (Some (compute_hash content))"
    using assms(5) compute_hash_no_space by (rule load_after_save)
  ultimately show ?thesis
    by simp
qed

theorem changed_saves_new_fingerprint_witness:
  "check_for_changes (answering 200 ''OK'' page_plain) id_engine
     (fs_with ''last_hash.txt'' (Readable ''0000'')) example_config
     = Inr ((True, ''Change detected on monitored page''),
            fs_with ''last_hash.txt'' (Readable (compute_hash ''Content'')))
   \<and> load_previous_hash (fs_with ''last_hash.txt'' (Readable (compute_hash ''Content'')))
        ''last_hash.txt'' = Inr (Some (compute_hash ''Content''))"
proof -
  have path: "hash_storage_path example_config = ''last_hash.txt''"
    by (simp add: example_config_def)
  have old: "load_previous_hash (fs_with ''last_hash.txt'' (Readable ''0000''))
               (hash_storage_path example_config) = Inr (Some ''0000'')"
    unfolding path by (rule example_load) (simp add: is_space_def)
  have differs: "compute_hash ''Content'' \<noteq> ''0000''"
    by (rule compute_hash_not_short) simp
  have saved: "save_hash (fs_with ''last_hash.txt'' (Readable ''0000''))
                 (hash_storage_path example_config) (compute_hash ''Content'')
               = Inr (fs_with ''last_hash.txt'' (Readable (compute_hash ''Content'')))"
    unfolding path by (rule example_save)
  show ?thesis
    using changed_saves_new_fingerprint [OF example_fetch example_extract old differs saved]
    by (simp add: path)
qed

text \<open>
  Claim C3. When the load at the configured key returns \<^verbatim>\<open>None\<close>,
  \<open>check_for_changes\<close> saves the new fingerprint at that key and returns \<open>False\<close>
  with the message of a first run.
\<close>

theorem first_run_saves_baseline:
  assumes "fetch_page_content net (monitor_url cfg) 30 = Inr html"
    and "extract_content engine html (check_selector cfg) = Inr content"
    and "load_previous_hash fs (hash_storage_path cfg) = Inr None"
    and "save_hash fs (hash_storage_path cfg) (compute_hash content) = Inr fs'"
  shows "check_for_changes net engine fs cfg
           = Inr ((False, ''First run - baseline hash saved''), fs')
         \<and> entry_at fs' (hash_storage_path cfg) = Some (Readable (compute_hash content))
         \<and> load_previous_hash fs' (hash_storage_path cfg) = Inr (Some (compute_hash content))"
proof -
  have "check_for_changes net engine fs cfg
          = Inr ((False, ''First run - baseline hash saved''), fs')"
    using assms by (simp add: check_for_changes_def)
  moreover have "entry_at fs' (hash_storage_path cfg) = Some (Readable (compute_hash content))"
    using assms(4) by (rule save_hash_entry)
  moreover have "load_previous_hash fs' (hash_storage_path cfg)
                   = Inr (Some (compute_hash content))"
    using assms(4) compute_hash_no_space by (rule load_after_save)
  ultimately show ?thesis
    by simp
qed

theorem first_run_saves_baseline_witness:
  "check_for_changes (answering 200 ''OK'' page_plain) id_engine empty_fs example_config
     = Inr ((False, ''First run - baseline hash saved''),
            fs_with ''last_hash.txt'' (Readable (compute_hash ''Content'')))
   \<and> load_previous_hash (fs_with ''last_hash.txt'' (Readable (compute_hash ''Content'')))
        ''last_hash.txt'' = Inr (Some (compute_hash ''Content''))"
proof -
  have path: "hash_storage_path example_config = ''last_hash.txt''"
    by (simp add: example_config_def)
  have saved: "save_hash empty_fs (hash_storage_path example_config) (compute_hash ''Content'')
               = Inr (fs_with ''last_hash.txt'' (Readable (compute_hash ''Content'')))"
    unfolding path by (rule example_save_empty)
  show ?thesis
    using first_run_saves_baseline [OF example_fetch example_extract example_load_empty saved]
    by (simp add: path)
qed

text \<open>
  Claim C4. When the new fingerprint equals the stored one, \<open>check_for_changes\<close>
  returns \<open>False\<close> with the message of no change, and the file system it returns is
  the one it was given. Whenever a call returns a file system other than the one it was
  given, its message is that of a first run or of a change.
\<close>

theorem unchanged_leaves_store:
  "(fetch_page_content net (monitor_url cfg) 30 = Inr html
      \<and> extract_content engine html (check_selector cfg) = Inr content
      \<and> load_previous_hash fs (hash_storage_path cfg) = Inr (Some (compute_hash content))
    \<longrightarrow> check_for_changes net engine fs cfg = Inr ((False, ''No changes detected''), fs))
   \<and> (check_for_changes net engine fs cfg = Inr ((changed, message), fs') \<and> fs' \<noteq> fs
    \<longrightarrow> message = ''First run - baseline hash saved'' \<and> \<not> changed
        \<or> message = ''Change detected on monitored page'' \<and> changed)"
proof (intro conjI impI)
  assume "fetch_page_content net (monitor_url cfg) 30 = Inr html
      \<and> extract_content engine html (check_selector cfg) = Inr content
      \<and> load_previous_hash fs (hash_storage_path cfg) = Inr (Some (compute_hash content))"
  then show "check_for_changes net engine fs cfg = Inr ((False, ''No changes detected''), fs)"
    by (simp add: check_for_changes_def)
next
  assume "check_for_changes net engine fs cfg = Inr ((changed, message), fs') \<and> fs' \<noteq> fs"
  then show "message = ''First run - baseline hash saved'' \<and> \<not> changed
        \<or> message = ''Change detected on monitored page'' \<and> changed"
    by (auto simp: check_for_changes_def Let_def split: sum.splits option.splits if_splits)
qed

lemma example_first_run:
  "check_for_changes (answering 200 ''OK'' page_plain) id_engine empty_fs example_config
     = Inr ((False, ''First run - baseline hash saved''),
            fs_with ''last_hash.txt'' (Readable (compute_hash ''Content'')))"
proof -
  have "hash_storage_path example_config = ''last_hash.txt''"
    by (simp add: example_config_def)
  then show ?thesis
    by (simp add: check_for_changes_def example_fetch example_extract example_load_empty
        example_save_empty)
qed

theorem unchanged_leaves_store_witness:
  "check_for_changes (answering 200 ''OK'' page_plain) id_engine
     (fs_with ''last_hash.txt'' (Readable (compute_hash ''Content''))) example_config
     = Inr ((False, ''No changes detected''),
            fs_with ''last_hash.txt'' (Readable (compute_hash ''Content'')))
   \<and> check_for_changes (answering 200 ''OK'' page_plain) id_engine empty_fs example_config
     = Inr ((False, ''First run - baseline hash saved''),
            fs_with ''last_hash.txt'' (Readable (compute_hash ''Content'')))
   \<and> fs_with ''last_hash.txt'' (Readable (compute_hash ''Content'')) \<noteq> empty_fs"
proof -
  have path: "hash_storage_path example_config = ''last_hash.txt''"
    by (simp add: example_config_def)
  have same: "load_previous_hash (fs_with ''last_hash.txt'' (Readable (compute_hash ''Content'')))
                (hash_storage_path example_config) = Inr (Some (compute_hash ''Content''))"
    unfolding path using compute_hash_no_space by (rule example_load)
  have other: "fs_with ''last_hash.txt'' (Readable (compute_hash ''Content'')) \<noteq> empty_fs"
  proof
    assume "fs_with ''last_hash.txt'' (Readable (compute_hash ''Content'')) = empty_fs"
    then have "entry_at (fs_with ''last_hash.txt'' (Readable (compute_hash ''Content'')))
                 ''last_hash.txt'' = entry_at empty_fs ''last_hash.txt''"
      by simp
    then show False
      by (simp add: fs_with_def empty_fs_def)
  qed
  show ?thesis
    using example_fetch example_extract same example_first_run other
      unchanged_leaves_store [of "answering 200 ''OK'' page_plain" example_config page_plain
        id_engine "''Content''" "fs_with ''last_hash.txt'' (Readable (compute_hash ''Content''))"
        False "''No changes detected''"
        "fs_with ''last_hash.txt'' (Readable (compute_hash ''Content''))"]
      unchanged_leaves_store [of "answering 200 ''OK'' page_plain" example_config page_plain
        id_engine "''Content''" empty_fs False "''First run - baseline hash saved''"
        "fs_with ''last_hash.txt'' (Readable (compute_hash ''Content''))"]
    by simp
qed

subsection \<open>Whitespace and words\<close>























subsection \<open>The removal passes\<close>

lemma prune_prune:
  assumes "\<And>x. P (prune Q x) = P x"
  shows "prune P (prune Q x) = prune (\<lambda>y. Q y \<or> P y) x"
proof (induction x)
  case (Tag n a cs)
  have "map (prune P) (filter (\<lambda>c. \<not> P c) (map (prune Q) (filter (\<lambda>c. \<not> Q c) cs)))
        = map (prune P) (map (prune Q) (filter (\<lambda>c. \<not> P c) (filter (\<lambda>c. \<not> Q c) cs)))"
    by (simp add: filter_map comp_def assms)
  also have "\<dots> = map (prune (\<lambda>y. Q y \<or> P y)) (filter (\<lambda>c. \<not> (Q c \<or> P c)) cs)"
    using Tag.IH by (auto simp: conj_commute)
  finally show ?case
    by simp
qed simp_all

lemma decompose_all_twice:
  assumes "\<And>x. P (prune Q x) = P x"
  shows "decompose_all P (decompose_all Q html) = decompose_all (\<lambda>y. Q y \<or> P y) html"
proof -
  have "map (prune P) (filter (\<lambda>c. \<not> P c) (map (prune Q) (filter (\<lambda>c. \<not> Q c) html)))
        = map (prune P) (map (prune Q) (filter (\<lambda>c. \<not> P c) (filter (\<lambda>c. \<not> Q c) html)))"
    by (simp add: filter_map comp_def assms)
  also have "\<dots> = map (prune (\<lambda>y. Q y \<or> P y)) (filter (\<lambda>c. \<not> (Q c \<or> P c)) html)"
    by (simp add: prune_prune [of P Q, OF assms] conj_commute)
  finally show ?thesis
    by (simp add: decompose_all_def)
qed

lemma dynamic_tag_prune: "dynamic_tag (prune Q x) = dynamic_tag x"
  by (cases x) simp_all

lemma tracking_tag_prune: "tracking_tag (prune Q x) = tracking_tag x"
  by (cases x) simp_all

lemma has_attr_prune: "has_attr key (prune Q x) = has_attr key x"
  by (cases x) simp_all

lemma passes_without_noise:
  "decompose_all (has_attr ''data-nonce'')
     (decompose_all (has_attr ''data-timestamp'')
        (decompose_all tracking_tag (decompose_all dynamic_tag html)))
   = without_noise html"
proof -
  have a: "decompose_all tracking_tag (decompose_all dynamic_tag html)
           = decompose_all (\<lambda>y. dynamic_tag y \<or> tracking_tag y) html"
    by (rule decompose_all_twice) (rule tracking_tag_prune)
  have b: "decompose_all (has_attr ''data-timestamp'')
             (decompose_all (\<lambda>y. dynamic_tag y \<or> tracking_tag y) html)
           = decompose_all (\<lambda>y. (dynamic_tag y \<or> tracking_tag y) \<or> has_attr ''data-timestamp'' y) html"
    by (rule decompose_all_twice) (rule has_attr_prune)
  have c: "decompose_all (has_attr ''data-nonce'')
             (decompose_all (\<lambda>y. (dynamic_tag y \<or> tracking_tag y) \<or> has_attr ''data-timestamp'' y) html)
           = decompose_all (\<lambda>y. ((dynamic_tag y \<or> tracking_tag y) \<or> has_attr ''data-timestamp'' y)
                                  \<or> has_attr ''data-nonce'' y) html"
    by (rule decompose_all_twice) (rule has_attr_prune)
  have "(\<lambda>y. ((dynamic_tag y \<or> tracking_tag y) \<or> has_attr ''data-timestamp'' y)
                                  \<or> has_attr ''data-nonce'' y) = is_noise"
    by (auto simp: is_noise_def fun_eq_iff)
  with a b c show ?thesis
    by (simp add: without_noise_def)
qed

subsection \<open>The normalizer\<close>

lemma extract_content_without_noise:
  "extract_content engine html selector =
     (case selector of
        None \<Rightarrow> Inr (strip (re_sub_spaces (get_text (without_noise html))))
      | Some sel \<Rightarrow>
          if sel = [] then Inr (strip (re_sub_spaces (get_text (without_noise html))))
          else (case select_one engine (without_noise html) sel of
                  Inl e \<Rightarrow> Inl e
                | Inr None \<Rightarrow> Inl (MonitorError (SelectorNoMatch sel))
                | Inr (Some element) \<Rightarrow> Inr (strip (re_sub_spaces (get_text [element])))))"
  by (simp add: extract_content_def passes_without_noise Let_def
      split: option.splits sum.splits)




lemma delete_noise:
  assumes "\<And>n a cs cs'. P (Tag n a cs) = P (Tag n a cs')"
  shows "delete_node x d d' \<Longrightarrow> P x \<Longrightarrow> decompose_all P d = decompose_all P d'"
proof (induction rule: delete_node.induct)
  case (here x before after)
  then show ?case
    by (simp add: decompose_all_def)
next
  case (inside x cs cs' before n a after)
  then show ?case
    using assms [of n a cs cs'] by (simp add: decompose_all_def)
qed

lemma is_noise_children: "is_noise (Tag n a cs) = is_noise (Tag n a cs')"
  by (simp add: is_noise_def)

lemma delete_noise_without_noise:
  "delete_node x d d' \<Longrightarrow> is_noise x \<Longrightarrow> without_noise d = without_noise d'"
  unfolding without_noise_def by (rule delete_noise) (rule is_noise_children)

lemma tags_of_prune:
  assumes "\<And>y. P (prune P y) = P y"
  shows "e \<in> set (tags_of (prune P x)) \<Longrightarrow> \<not> P x \<Longrightarrow> \<not> P e"
proof (induction x arbitrary: e)
  case (Tag n a cs)
  from Tag.prems(1) consider "e = prune P (Tag n a cs)"
    | c where "c \<in> set cs" and "\<not> P c" and "e \<in> set (tags_of (prune P c))"
    by auto
  then show ?case
  proof cases
    case 1
    then show ?thesis
      using assms [of "Tag n a cs"] Tag.prems(2) by simp
  next
    case 2
    with Tag.IH show ?thesis by blast
  qed
qed simp_all

lemma tags_of_decompose_all:
  assumes "\<And>y. P (prune P y) = P y"
  shows "list_all (\<lambda>e. \<not> P e) (concat (map tags_of (decompose_all P d)))"
  using tags_of_prune [OF assms] by (auto simp: list_all_iff decompose_all_def)

lemma is_noise_prune: "is_noise (prune Q x) = is_noise x"
  by (simp add: is_noise_def dynamic_tag_prune tracking_tag_prune has_attr_prune)

lemma same_without_noise:
  assumes "without_noise d1 = without_noise d2"
  shows "extract_content engine d1 selector = extract_content engine d2 selector"
  unfolding extract_content_without_noise assms ..












lemma tracking_tag_is_noise: "tracking_tag x \<Longrightarrow> is_noise x"
  by (simp add: is_noise_def)

lemma no_tracking_tag_left:
  "list_all (\<lambda>e. \<not> tracking_tag e) (concat (map tags_of (without_noise d)))"
proof -
  have "list_all (\<lambda>e. \<not> is_noise e) (concat (map tags_of (decompose_all is_noise d)))"
    by (rule tags_of_decompose_all) (rule is_noise_prune)
  then show ?thesis
    by (auto simp: without_noise_def list_all_iff dest: tracking_tag_is_noise)
qed

lemma class_substring_tracking:
  assumes "map_of a ''class'' = Some (Multi names)" and "nm \<in> set names"
    and "w \<in> {''ad'', ''tracking'', ''analytics''}" and "contains w (map ascii_lower nm)"
  shows "tracking_tag (Tag n a cs)"
proof -
  from assms(3,4) have "re_search nm"
    by (auto simp: re_search_def)
  with assms(2) have "list_ex re_search names"
    by (auto simp: list_ex_iff)
  with assms(1) show ?thesis
    by simp
qed

text \<open>
  Claim C10. The class search is a search for a substring: a tag one of whose class
  names contains "ad", "tracking" or "analytics", in any mix of cases, is found by it
  (so are the classes \<^verbatim>\<open>header\<close>, \<^verbatim>\<open>shadow\<close> and \<^verbatim>\<open>download\<close>). The content of a
  document with such a tag is the content of the document without the tag and what is
  inside it, and no such tag is left in the tree the text is taken from.
\<close>

theorem class_substring_removed:
  "(map_of a ''class'' = Some (Multi names) \<and> nm \<in> set names
      \<and> w \<in> {''ad'', ''tracking'', ''analytics''} \<and> contains w (map ascii_lower nm)
      \<and> delete_node (Tag n a cs) d d'
    \<longrightarrow> tracking_tag (Tag n a cs)
        \<and> extract_content engine d selector = extract_content engine d' selector)
   \<and> list_all (\<lambda>e. \<not> tracking_tag e) (concat (map tags_of (without_noise d)))
   \<and> matches (Multi [''header'']) \<and> matches (Multi [''shadow''])
   \<and> matches (Multi [''download''])"
proof (intro conjI impI)
  assume h: "map_of a ''class'' = Some (Multi names) \<and> nm \<in> set names
      \<and> w \<in> {''ad'', ''tracking'', ''analytics''} \<and> contains w (map ascii_lower nm)
      \<and> delete_node (Tag n a cs) d d'"
  then show t: "tracking_tag (Tag n a cs)"
    using class_substring_tracking [of a names nm w n cs] by blast
  then have "is_noise (Tag n a cs)"
    by (rule tracking_tag_is_noise)
  with h have "without_noise d = without_noise d'"
    using delete_noise_without_noise [of "Tag n a cs" d d'] by blast
  then show "extract_content engine d selector = extract_content engine d' selector"
    by (rule same_without_noise)
next
  show "list_all (\<lambda>e. \<not> tracking_tag e) (concat (map tags_of (without_noise d)))"
    by (rule no_tracking_tag_left)
next
  show "matches (Multi [''header''])"
    by (simp add: re_search_def ascii_lower_def)
next
  show "matches (Multi [''shadow''])"
    by (simp add: re_search_def ascii_lower_def)
next
  show "matches (Multi [''download''])"
    by (simp add: re_search_def ascii_lower_def)
qed

theorem class_substring_removed_witness:
  "contains ''ad'' (map ascii_lower ''header'')
   \<and> delete_node header_menu header_page [Tag ''p'' [] [NavigableString ''Body'']]
   \<and> tracking_tag header_menu
   \<and> extract_content id_engine header_page None = Inr ''Body''"
proof -
  have sub: "contains ''ad'' (map ascii_lower ''header'')"
    by (simp add: ascii_lower_def)
  have del: "delete_node header_menu ([] @ header_menu # [Tag ''p'' [] [NavigableString ''Body'']])
               ([] @ [Tag ''p'' [] [NavigableString ''Body'']])"
    by (rule delete_node.here)
  have body: "extract_content id_engine [Tag ''p'' [] [NavigableString ''Body'']] None
                = Inr ''Body''"
    by (simp add: extract_content_def decompose_all_def get_text_def strip_def is_space_def)
  show ?thesis
    using sub del body
      class_substring_removed [of "[(''class'', Multi [''header''])]" "[''header'']"
        "''header''" "''ad''" "''div''" "[NavigableString ''Menu'']" header_page
        "[Tag ''p'' [] [NavigableString ''Body'']]" id_engine None]
    by (simp add: header_page_def header_menu_def)
qed

end
